theory Spec2Isabelle
  imports
    Complex_Main
    "HOL-Library.Multiset"
    "HOL-Library.List_Lexorder"
    "HOL-Library.Char_ord"
begin

section \<open>Numbers\<close>

text \<open>
  The proxy computes with Go's \<^verbatim>\<open>float64\<close>, \<^verbatim>\<open>int\<close> and \<^verbatim>\<open>int64\<close>.
  In this development a \<^verbatim>\<open>float64\<close> is a real number and a Go integer is an
  integer: rounding error, infinities, NaN and integer overflow are outside the model.
  Every statement below is a statement about the exact arithmetic the code writes down.

  Go converts a floating-point number to an integer by discarding the fraction
  (truncation towards zero); \<open>go_int\<close> is that conversion, used for both
  \<^verbatim>\<open>int(x)\<close> and \<^verbatim>\<open>int64(x)\<close>.
\<close>

definition go_int :: "real \<Rightarrow> int" where
  "go_int x = (if x < 0 then \<lceil>x\<rceil> else \<lfloor>x\<rfloor>)"

section \<open>Data model\<close>

text \<open>
  Modelled from the spec: \<^verbatim>\<open>wavefront.DataPoint\<close> is declared in the Wavefront client
  library, not in this repository. The code reads index 0 as the timestamp (seconds) and
  index 1 as the value, and the spec describes a sample as a pair
  \<open>(timestampSeconds, value)\<close>; a data point is that pair.
\<close>

type_synonym DataPoint = "real \<times> real"

record promQLQuery =
  Start :: real
  End :: real
  Step :: real
  Query :: string

section \<open>The resampler\<close>

text \<open>
  The inner loop of \<^verbatim>\<open>extractPromQLData\<close>:
  \<^verbatim>\<open>for indexPlus1 < len(data) && data[indexPlus1][0] <= timestamp { indexPlus1++ }\<close>
\<close>

function advance :: "DataPoint list \<Rightarrow> real \<Rightarrow> nat \<Rightarrow> nat" where
  "advance data timestamp indexPlus1 =
     (if indexPlus1 < length data \<and> fst (data ! indexPlus1) \<le> timestamp
      then advance data timestamp (indexPlus1 + 1)
      else indexPlus1)"
  by pat_completeness auto
termination
  by (relation "measure (\<lambda>(data, timestamp, indexPlus1). length data - indexPlus1)") auto

declare advance.simps [simp del]

text \<open>
  The outer loop, \<^verbatim>\<open>for i := 0; i < resultSize; i++\<close>, with the loop variables
  \<open>i\<close>, \<open>indexPlus1\<close> and \<open>result\<close> passed along. The text of a value
  comes from \<^verbatim>\<open>strconv.FormatFloat(x, 'g', -1, 64)\<close>, a library function: it is the
  parameter \<open>floatToString\<close>.
\<close>

function extractPromQLData_loop ::
  "(real \<Rightarrow> string) \<Rightarrow> DataPoint list \<Rightarrow> promQLQuery \<Rightarrow> int \<Rightarrow> int \<Rightarrow> nat \<Rightarrow>
   (real \<times> string) list \<Rightarrow> (real \<times> string) list" where
  "extractPromQLData_loop floatToString data query resultSize i indexPlus1 result =
     (if i < resultSize then
        (let timestamp = Start query + real_of_int i * Step query;
             indexPlus1' = advance data timestamp indexPlus1;
             timestampdiff = timestamp - fst (data ! (indexPlus1' - 1));
             result' =
               (if 0 \<le> timestampdiff \<and> timestampdiff < Step query
                then result @ [(timestamp, floatToString (snd (data ! (indexPlus1' - 1))))]
                else result)
         in extractPromQLData_loop floatToString data query resultSize (i + 1) indexPlus1' result')
      else result)"
  by pat_completeness auto
termination
  by (relation "measure (\<lambda>(f, data, query, resultSize, i, indexPlus1, result). nat (resultSize - i))")
     auto

declare extractPromQLData_loop.simps [simp del]

text \<open>
  With no data the function returns an empty slice, and with data but no grid point emitted
  the nil slice \<^verbatim>\<open>result\<close> was declared as; both are the empty list.
\<close>

definition extractPromQLData ::
  "(real \<Rightarrow> string) \<Rightarrow> DataPoint list \<Rightarrow> promQLQuery \<Rightarrow> (real \<times> string) list" where
  "extractPromQLData floatToString data query =
     (if length data = 0 then []
      else extractPromQLData_loop floatToString data query
             (go_int ((End query - Start query) / Step query) + 1) 0 1 [])"

subsection \<open>The resampler as the specification describes it\<close>






section \<open>Request parsing\<close>

record promQLError =
  Status :: string
  ErrorType :: string
  Err :: string

definition newBadDataPromQLError :: "string \<Rightarrow> promQLError" where
  "newBadDataPromQLError str = \<lparr>Status = ''error'', ErrorType = ''bad_data'', Err = str\<rparr>"

text \<open>
  \<^verbatim>\<open>r.Form\<close> is a \<^verbatim>\<open>url.Values\<close>, a map from a parameter name to the list of its
  values; \<^verbatim>\<open>Get\<close> returns the first value of a name, or the empty string when the name
  has none. Of \<^verbatim>\<open>http.Request\<close> only the field \<^verbatim>\<open>Form\<close> is read.
\<close>

type_synonym Values = "string \<rightharpoonup> string list"

definition Get :: "Values \<Rightarrow> string \<Rightarrow> string" where
  "Get v key = (case v key of None \<Rightarrow> [] | Some [] \<Rightarrow> [] | Some (x # xs) \<Rightarrow> x)"

record Request =
  Form :: Values

text \<open>
  \<^verbatim>\<open>strconv.ParseFloat(s, 64)\<close> is a library function: it is the parameter
  \<open>ParseFloat\<close>, which gives \<open>None\<close> where the library returns an error and the
  parsed number otherwise. The checks run in the order of the source: start, end, step,
  then \<^verbatim>\<open>step <= 0.0\<close>, then \<^verbatim>\<open>end < start\<close>.
\<close>

definition extractPromQL ::
  "(string \<Rightarrow> real option) \<Rightarrow> 'a Request_scheme \<Rightarrow> promQLError + promQLQuery" where
  \<open>extractPromQL ParseFloat r =
     (let startStr = Get (Form r) ''start'' in
      case ParseFloat startStr of
        None \<Rightarrow> Inl (newBadDataPromQLError
          (''invalid parameter 'start': cannot parse "'' @ startStr @ ''" to a valid timestamp''))
      | Some start \<Rightarrow>
     (let endStr = Get (Form r) ''end'' in
      case ParseFloat endStr of
        None \<Rightarrow> Inl (newBadDataPromQLError
          (''invalid parameter 'end': cannot parse "'' @ endStr @ ''" to a valid timestamp''))
      | Some end' \<Rightarrow>
     (let stepStr = Get (Form r) ''step'' in
      case ParseFloat stepStr of
        None \<Rightarrow> Inl (newBadDataPromQLError
          (''invalid parameter 'step': cannot parse "'' @ stepStr @ ''" to a valid duration''))
      | Some step \<Rightarrow>
          if step \<le> 0 then
            Inl (newBadDataPromQLError
              ''zero or negative query resolution step widths are not accepted. Try a positive integer'')
          else if end' < start then
            Inl (newBadDataPromQLError ''end timestamp must not be before start time'')
          else
            Inr \<lparr>Start = start, End = end', Step = step, Query = Get (Form r) ''query''\<rparr>)))\<close>

section \<open>Time-range translation\<close>


text \<open>
  Of the handler only the skew is modelled (the Wavefront client is the external
  collaborator). \<^verbatim>\<open>time.Duration\<close> counts nanoseconds, and
  \<^verbatim>\<open>float64(h.skew) / float64(time.Second)\<close> is the skew in seconds, the local
  variable \<^verbatim>\<open>skew\<close> of the source (\<open>skew'\<close> below, the field having the name).
\<close>

record queryHandler =
  skew :: int

definition skew_seconds :: "'a queryHandler_scheme \<Rightarrow> real" where
  "skew_seconds h = real_of_int (skew h) / 1000000000"





section \<open>The backend's response\<close>

text \<open>
  Modelled from the spec: \<^verbatim>\<open>wavefront.TimeSeries\<close> and \<^verbatim>\<open>wavefront.QueryResponse\<close> are
  declared in the Wavefront client library, not in this repository. The records hold the
  fields the proxy reads (the spec's RawSeries and error descriptor); whatever else the
  library's structs carry sits in the records' extension slot, which no function here
  touches.
\<close>

record TimeSeries =
  Label :: string
  Host :: string
  Tags :: "string \<rightharpoonup> string"
  DataPoints :: "DataPoint list"

record QueryResponse =
  TimeSeries :: "TimeSeries list"
  ErrType :: string
  ErrMessage :: string

subsection \<open>Skew correction\<close>

text \<open>
  \<^verbatim>\<open>for j := range response.TimeSeries[i].DataPoints { ...DataPoints[j][0] += skew }\<close>
\<close>

function skewLater_points :: "real \<Rightarrow> DataPoint list \<Rightarrow> nat \<Rightarrow> DataPoint list" where
  "skewLater_points skew' dataPoints j =
     (if j < length dataPoints
      then skewLater_points skew'
             (dataPoints[j := (fst (dataPoints ! j) + skew', snd (dataPoints ! j))]) (j + 1)
      else dataPoints)"
  by pat_completeness auto
termination
  by (relation "measure (\<lambda>(skew', dataPoints, j). length dataPoints - j)") auto

declare skewLater_points.simps [simp del]

text \<open>\<^verbatim>\<open>for i := range response.TimeSeries { ... }\<close>\<close>

function skewLater_series ::
  "real \<Rightarrow> 'a TimeSeries_scheme list \<Rightarrow> nat \<Rightarrow> 'a TimeSeries_scheme list" where
  "skewLater_series skew' series i =
     (if i < length series
      then skewLater_series skew'
             (series[i := (series ! i)
                \<lparr>DataPoints := skewLater_points skew' (DataPoints (series ! i)) 0\<rparr>]) (i + 1)
      else series)"
  by pat_completeness auto
termination
  by (relation "measure (\<lambda>(skew', series, i). length series - i)") auto

declare skewLater_series.simps [simp del]

definition skewLater :: "'a queryHandler_scheme \<Rightarrow> 'b QueryResponse_scheme \<Rightarrow> 'b QueryResponse_scheme" where
  "skewLater h response =
     response\<lparr>TimeSeries := skewLater_series (skew_seconds h) (TimeSeries response) 0\<rparr>"

section \<open>Response assembly\<close>

text \<open>
  \<^verbatim>\<open>for k, v := range t.Tags { result[k] = v }\<close> stores every tag over what the map
  holds: the map is overlaid with the tags (\<open>++\<close>).
\<close>

definition extractPromQLMetric :: "'a TimeSeries_scheme \<Rightarrow> (string \<rightharpoonup> string)" where
  "extractPromQLMetric t =
     (let result = Map.empty;
          result = (if Label t \<noteq> [] then result(''__name__'' \<mapsto> Label t) else result);
          result = (if Host t \<noteq> [] then result(''instance'' \<mapsto> Host t) else result)
      in result ++ Tags t)"

record promQLTimeSeries =
  Metric :: "string \<rightharpoonup> string"
  Values :: "(real \<times> string) list"

record promQLData =
  Result :: "promQLTimeSeries list"
  ResultType :: string

text \<open>
  The response's field \<^verbatim>\<open>Status\<close> is \<open>Status_resp\<close> here: the error's field has the
  same name.
\<close>

record promQLResponse =
  Data :: promQLData
  Status_resp :: string

section \<open>Sorting the series\<close>

text \<open>
  \<^verbatim>\<open>metric[key]\<close> on a Go map: the value, or the empty string for a key that is not
  there.
\<close>

definition map_index :: "(string \<rightharpoonup> string) \<Rightarrow> string \<Rightarrow> string" where
  "map_index metric key = (case metric key of None \<Rightarrow> [] | Some v \<Rightarrow> v)"

text \<open>
  \<^verbatim>\<open>metricMapToSlice\<close> collects the keys of the map in the order \<^verbatim>\<open>range\<close> yields them
  (each key once, in no specified order), sorts them with \<^verbatim>\<open>sort.Strings\<close> and appends
  key and value in turn. \<open>metricMapToSlice_from\<close> is the function for a given order of
  \<^verbatim>\<open>range\<close>; Go compares strings bytewise, which is the lexicographic order on
  \<open>string\<close>. A sorted list of distinct keys does not depend on the order they came in
  (lemma \<open>metricMapToSlice_from_any_order\<close>), so \<open>metricMapToSlice\<close> takes the keys in
  ascending order.
\<close>

definition metricMapToSlice_from :: "string list \<Rightarrow> (string \<rightharpoonup> string) \<Rightarrow> string list" where
  "metricMapToSlice_from keys metric =
     concat (map (\<lambda>key. [key, map_index metric key]) (sort keys))"

definition metricMapToSlice :: "(string \<rightharpoonup> string) \<Rightarrow> string list" where
  "metricMapToSlice metric = metricMapToSlice_from (sorted_list_of_set (dom metric)) metric"

text \<open>The loop of \<^verbatim>\<open>sliceLess\<close>, from index \<open>i\<close>.\<close>

function sliceLess_from :: "string list \<Rightarrow> string list \<Rightarrow> nat \<Rightarrow> bool" where
  "sliceLess_from lhs rhs i =
     (if i < length lhs \<and> i < length rhs then
        (if lhs ! i < rhs ! i then True
         else if lhs ! i > rhs ! i then False
         else sliceLess_from lhs rhs (i + 1))
      else length lhs < length rhs)"
  by pat_completeness auto
termination
  by (relation "measure (\<lambda>(lhs, rhs, i). length lhs - i)") auto

declare sliceLess_from.simps [simp del]

definition sliceLess :: "string list \<Rightarrow> string list \<Rightarrow> bool" where
  "sliceLess lhs rhs = sliceLess_from lhs rhs 0"

record promQLTimeSeriesSorter =
  timeSeries :: "promQLTimeSeries list"
  metricKeyValues :: "string list list"

definition initialize :: "promQLTimeSeriesSorter \<Rightarrow> promQLTimeSeriesSorter" where
  "initialize p = p\<lparr>metricKeyValues := map (\<lambda>ts. metricMapToSlice (Metric ts)) (timeSeries p)\<rparr>"

definition Less :: "promQLTimeSeriesSorter \<Rightarrow> nat \<Rightarrow> nat \<Rightarrow> bool" where
  "Less p i j = sliceLess (metricKeyValues p ! i) (metricKeyValues p ! j)"

definition Swap :: "promQLTimeSeriesSorter \<Rightarrow> nat \<Rightarrow> nat \<Rightarrow> promQLTimeSeriesSorter" where
  "Swap p i j =
     p\<lparr>metricKeyValues := (metricKeyValues p)[i := metricKeyValues p ! j, j := metricKeyValues p ! i],
       timeSeries := (timeSeries p)[i := timeSeries p ! j, j := timeSeries p ! i]\<rparr>"

definition Len :: "promQLTimeSeriesSorter \<Rightarrow> nat" where
  "Len p = length (timeSeries p)"

text \<open>
  \<^verbatim>\<open>sort.Sort(data Interface)\<close> is a library function, a parameter here. It reads and
  changes \<open>data\<close> through the three methods \<^verbatim>\<open>Len\<close>, \<^verbatim>\<open>Less\<close> and \<^verbatim>\<open>Swap\<close>,
  which it gets with the data.
\<close>

type_synonym 's sort_Sort =
  "('s \<Rightarrow> nat) \<Rightarrow> ('s \<Rightarrow> nat \<Rightarrow> nat \<Rightarrow> bool) \<Rightarrow> ('s \<Rightarrow> nat \<Rightarrow> nat \<Rightarrow> 's) \<Rightarrow> 's \<Rightarrow> 's"

definition sortTimeSeriesInPlace ::
  "promQLTimeSeriesSorter sort_Sort \<Rightarrow> promQLTimeSeries list \<Rightarrow> promQLTimeSeries list" where
  "sortTimeSeriesInPlace sort_Sort ts =
     (let sorter = \<lparr>timeSeries = ts, metricKeyValues = []\<rparr>;
          sorter = initialize sorter
      in timeSeries (sort_Sort Len Less Swap sorter))"

text \<open>
  What the documentation of \<^verbatim>\<open>sort.Sort\<close> promises for one call. The data changes by
  calls of \<^verbatim>\<open>Swap\<close> on indices below \<^verbatim>\<open>Len\<close> only (\<open>swapped\<close>), and it ends in
  ascending order as \<^verbatim>\<open>Less\<close> determines it: no element is less than one before it.
  The documentation adds that the sort is not guaranteed to be stable.
\<close>

inductive swapped :: "('s \<Rightarrow> nat) \<Rightarrow> ('s \<Rightarrow> nat \<Rightarrow> nat \<Rightarrow> 's) \<Rightarrow> 's \<Rightarrow> 's \<Rightarrow> bool"
  for len :: "'s \<Rightarrow> nat" and swp :: "'s \<Rightarrow> nat \<Rightarrow> nat \<Rightarrow> 's" where
  swapped_refl: "swapped len swp p p"
| swapped_step: "swapped len swp p p' \<Longrightarrow> i < len p' \<Longrightarrow> j < len p' \<Longrightarrow>
     swapped len swp p (swp p' i j)"

definition sort_contract ::
  "'s sort_Sort \<Rightarrow> ('s \<Rightarrow> nat) \<Rightarrow> ('s \<Rightarrow> nat \<Rightarrow> nat \<Rightarrow> bool) \<Rightarrow> ('s \<Rightarrow> nat \<Rightarrow> nat \<Rightarrow> 's) \<Rightarrow> 's \<Rightarrow> bool" where
  "sort_contract sort_Sort len lt swp p =
     (swapped len swp p (sort_Sort len lt swp p) \<and>
      (\<forall>i j. i < j \<and> j < len (sort_Sort len lt swp p) \<longrightarrow>
         \<not> lt (sort_Sort len lt swp p) j i))"

subsection \<open>A sort routine that meets the contract\<close>

text \<open>
  The theorems about sorting hold for every \<^verbatim>\<open>sort.Sort\<close> that keeps its contract.
  To run them on concrete series, this is one such routine, written against the three
  methods as the library's is: a Shell pass with gap 6 followed by insertion sort, the
  routine of the Go library for short slices (twelve elements and fewer) up to
  release 1.18.
\<close>

text \<open>
  \<^verbatim>\<open>for i := a + 6; i < b; i++ { if data.Less(i, i-6) { data.Swap(i, i-6) } }\<close>
\<close>

function shellPass ::
  "('s \<Rightarrow> nat \<Rightarrow> nat \<Rightarrow> bool) \<Rightarrow> ('s \<Rightarrow> nat \<Rightarrow> nat \<Rightarrow> 's) \<Rightarrow> 's \<Rightarrow> nat \<Rightarrow> nat \<Rightarrow> 's" where
  "shellPass lt swp p b i =
     (if i < b
      then shellPass lt swp (if lt p i (i - 6) then swp p i (i - 6) else p) b (i + 1)
      else p)"
  by pat_completeness auto
termination
  by (relation "measure (\<lambda>(lt, swp, p, b, i). b - i)") auto

declare shellPass.simps [simp del]

text \<open>
  \<^verbatim>\<open>for j := i; j > a && data.Less(j, j-1); j-- { data.Swap(j, j-1) }\<close>
\<close>

function insertionSort_sink ::
  "('s \<Rightarrow> nat \<Rightarrow> nat \<Rightarrow> bool) \<Rightarrow> ('s \<Rightarrow> nat \<Rightarrow> nat \<Rightarrow> 's) \<Rightarrow> 's \<Rightarrow> nat \<Rightarrow> nat \<Rightarrow> 's" where
  "insertionSort_sink lt swp p a j =
     (if j > a \<and> lt p j (j - 1)
      then insertionSort_sink lt swp (swp p j (j - 1)) a (j - 1)
      else p)"
  by pat_completeness auto
termination
  by (relation "measure (\<lambda>(lt, swp, p, a, j). j)") auto

declare insertionSort_sink.simps [simp del]

text \<open>\<^verbatim>\<open>for i := a + 1; i < b; i++ { ... }\<close>\<close>

function insertionSort_from ::
  "('s \<Rightarrow> nat \<Rightarrow> nat \<Rightarrow> bool) \<Rightarrow> ('s \<Rightarrow> nat \<Rightarrow> nat \<Rightarrow> 's) \<Rightarrow> 's \<Rightarrow> nat \<Rightarrow> nat \<Rightarrow> nat \<Rightarrow> 's" where
  "insertionSort_from lt swp p a b i =
     (if i < b
      then insertionSort_from lt swp (insertionSort_sink lt swp p a i) a b (i + 1)
      else p)"
  by pat_completeness auto
termination
  by (relation "measure (\<lambda>(lt, swp, p, a, b, i). b - i)") auto

declare insertionSort_from.simps [simp del]

definition insertionSort ::
  "('s \<Rightarrow> nat \<Rightarrow> nat \<Rightarrow> bool) \<Rightarrow> ('s \<Rightarrow> nat \<Rightarrow> nat \<Rightarrow> 's) \<Rightarrow> 's \<Rightarrow> nat \<Rightarrow> nat \<Rightarrow> 's" where
  "insertionSort lt swp p a b = insertionSort_from lt swp p a b (a + 1)"

definition shellInsertionSort :: "'s sort_Sort" where
  "shellInsertionSort len lt swp p =
     (let n = len p
      in if n > 1 then insertionSort lt swp (shellPass lt swp p n 6) 0 n else p)"

subsection \<open>The conversion\<close>

text \<open>
  The loop \<^verbatim>\<open>for i := range response.TimeSeries\<close> fills entry \<open>i\<close> of the result from
  series \<open>i\<close> of the response.
\<close>

definition convertFromWavefront_result ::
  "(real \<Rightarrow> string) \<Rightarrow> 'a QueryResponse_scheme \<Rightarrow> promQLQuery \<Rightarrow> promQLTimeSeries list" where
  "convertFromWavefront_result floatToString response query =
     map (\<lambda>t. \<lparr>Metric = extractPromQLMetric t,
                Values = extractPromQLData floatToString (DataPoints t) query\<rparr>)
       (TimeSeries response)"

definition convertFromWavefront ::
  "promQLTimeSeriesSorter sort_Sort \<Rightarrow> (real \<Rightarrow> string) \<Rightarrow> 'a QueryResponse_scheme \<Rightarrow> promQLQuery \<Rightarrow>
   promQLError + promQLResponse" where
  "convertFromWavefront sort_Sort floatToString response query =
     (if ErrType response \<noteq> [] then Inl (newBadDataPromQLError (ErrMessage response))
      else
        (let result = convertFromWavefront_result floatToString response query
         in Inr \<lparr>Data = \<lparr>Result = sortTimeSeriesInPlace sort_Sort result, ResultType = ''matrix''\<rparr>,
                  Status_resp = ''success''\<rparr>))"

subsection \<open>Stability, as the specification states it\<close>

text \<open>
  A sort is stable on an input when, for every sort key, the series with that key come out
  in the order they went in.
\<close>

definition stable_on :: "promQLTimeSeries list \<Rightarrow> promQLTimeSeries list \<Rightarrow> bool" where
  "stable_on input output =
     (\<forall>key. filter (\<lambda>ts. metricMapToSlice (Metric ts) = key) output =
            filter (\<lambda>ts. metricMapToSlice (Metric ts) = key) input)"

text \<open>
  What \<^verbatim>\<open>insertionSort\<close>'s inner loop does to the keys, on lists: \<open>x\<close> moves to the
  left past every key it is less than. The keys left of \<open>x\<close> are given from right to left.
\<close>

fun sink_list :: "string list \<Rightarrow> string list list \<Rightarrow> string list list" where
  "sink_list x [] = [x]"
| "sink_list x (y # ys) = (if x < y then y # sink_list x ys else x # y # ys)"

subsection \<open>The sorter's invariant, and series to run the sort on\<close>

text \<open>
  \<^verbatim>\<open>Swap\<close> exchanges the keys and the series together, so that entry \<open>i\<close> of
  \<^verbatim>\<open>metricKeyValues\<close> stays the key of series \<open>i\<close>.
\<close>

definition aligned :: "promQLTimeSeriesSorter \<Rightarrow> bool" where
  "aligned p \<longleftrightarrow> metricKeyValues p = map (\<lambda>ts. metricMapToSlice (Metric ts)) (timeSeries p)"

text \<open>A series whose only label is \<^verbatim>\<open>__name__\<close>, with one value at time 100.\<close>

definition series :: "string \<Rightarrow> string \<Rightarrow> promQLTimeSeries" where
  "series name v = \<lparr>Metric = [''__name__'' \<mapsto> name], Values = [(100, v)]\<rparr>"

section \<open>Properties of the resampler\<close>

lemma advance_ge: "indexPlus1 \<le> advance data t indexPlus1"
  by (induction data t indexPlus1 rule: advance.induct) (subst advance.simps, auto)

lemma advance_le: "indexPlus1 \<le> length data \<Longrightarrow> advance data t indexPlus1 \<le> length data"
  by (induction data t indexPlus1 rule: advance.induct) (subst advance.simps, auto)

text \<open>
  The loop reads \<^verbatim>\<open>data[indexPlus1-1]\<close> after the inner loop. The cursor starts at 1 with
  \<^verbatim>\<open>len(data) > 0\<close> and stays between 1 and \<^verbatim>\<open>len(data)\<close>, so the read is in range:
  the code does not panic there, and \<open>!\<close> in the model is always applied below the length.
\<close>
theorem extractPromQLData_cursor_in_range:
  "1 \<le> indexPlus1 \<Longrightarrow> indexPlus1 \<le> length data \<Longrightarrow>
   1 \<le> advance data t indexPlus1 \<and> advance data t indexPlus1 - 1 < length data"
  using advance_ge [of indexPlus1 data t] advance_le [of indexPlus1 data t] by simp

theorem extractPromQLData_cursor_in_range_witness:
  "(1::nat) \<le> 1 \<and> (1::nat) \<le> length [(100::real, 5::real), (105, 7)] \<and>
   advance [(100, 5), (105, 7)] 105 1 = 2 \<and>
   advance [(100, 5), (105, 7)] 105 1 - 1 < length [(100::real, 5::real), (105, 7)]"
proof -
  have h: "(1::nat) \<le> 1" "(1::nat) \<le> length [(100::real, 5::real), (105, 7)]" by simp_all
  have "advance [(100, 5), (105, 7)] 105 1 = 2" by (simp add: advance.simps)
  with extractPromQLData_cursor_in_range [OF h, of 105] h show ?thesis by simp
qed
















text \<open>
  The scenario of the specification, run on the code itself: samples \<open>(100, 5)\<close> and
  \<open>(105, 7)\<close>, start 100, end 110, step 5. The grid point 110 is left out, the last sample
  being a full step old.
\<close>

lemma extractPromQLData_scenario:
  "extractPromQLData (\<lambda>v. if v = 5 then ''5'' else ''7'') [(100, 5), (105, 7)]
     \<lparr>Start = 100, End = 110, Step = 5, Query = ''up''\<rparr> = [(100, ''5''), (105, ''7'')]"
  by (simp add: extractPromQLData_def go_int_def extractPromQLData_loop.simps advance.simps Let_def)







section \<open>Properties of the time-range translation\<close>





section \<open>Properties of the request parser\<close>

text \<open>
  C3. \<^verbatim>\<open>extractPromQL\<close> returns an error, with status \<^verbatim>\<open>"error"\<close> and error type
  \<^verbatim>\<open>"bad_data"\<close>, if and only if start, end or step does not parse as a number (the
  message names the field and quotes its raw text), or the step is at most 0, or the end is
  before the start (each with its message); on every other input it returns the query with
  the parsed start, end and step and the query text as it came.
\<close>
theorem extractPromQL_bad_data:
  \<open>(\<forall>e. extractPromQL ParseFloat r = Inl e \<longrightarrow> Status e = ''error'' \<and> ErrorType e = ''bad_data'') \<and>
   ((\<exists>e. extractPromQL ParseFloat r = Inl e) \<longleftrightarrow>
      ParseFloat (Get (Form r) ''start'') = None \<or>
      ParseFloat (Get (Form r) ''end'') = None \<or>
      ParseFloat (Get (Form r) ''step'') = None \<or>
      (\<exists>step. ParseFloat (Get (Form r) ''step'') = Some step \<and> step \<le> 0) \<or>
      (\<exists>start end'. ParseFloat (Get (Form r) ''start'') = Some start \<and>
         ParseFloat (Get (Form r) ''end'') = Some end' \<and> end' < start)) \<and>
   (ParseFloat (Get (Form r) ''start'') = None \<longrightarrow>
      extractPromQL ParseFloat r = Inl (newBadDataPromQLError
        (''invalid parameter 'start': cannot parse "'' @ Get (Form r) ''start'' @
         ''" to a valid timestamp''))) \<and>
   (ParseFloat (Get (Form r) ''start'') \<noteq> None \<and> ParseFloat (Get (Form r) ''end'') = None \<longrightarrow>
      extractPromQL ParseFloat r = Inl (newBadDataPromQLError
        (''invalid parameter 'end': cannot parse "'' @ Get (Form r) ''end'' @
         ''" to a valid timestamp''))) \<and>
   (ParseFloat (Get (Form r) ''start'') \<noteq> None \<and> ParseFloat (Get (Form r) ''end'') \<noteq> None \<and>
    ParseFloat (Get (Form r) ''step'') = None \<longrightarrow>
      extractPromQL ParseFloat r = Inl (newBadDataPromQLError
        (''invalid parameter 'step': cannot parse "'' @ Get (Form r) ''step'' @
         ''" to a valid duration''))) \<and>
   (\<forall>start end' step.
      ParseFloat (Get (Form r) ''start'') = Some start \<and>
      ParseFloat (Get (Form r) ''end'') = Some end' \<and>
      ParseFloat (Get (Form r) ''step'') = Some step \<longrightarrow>
      extractPromQL ParseFloat r =
        (if step \<le> 0 then Inl (newBadDataPromQLError
           ''zero or negative query resolution step widths are not accepted. Try a positive integer'')
         else if end' < start then Inl (newBadDataPromQLError
           ''end timestamp must not be before start time'')
         else Inr \<lparr>Start = start, End = end', Step = step, Query = Get (Form r) ''query''\<rparr>))\<close>
  by (cases "ParseFloat (Get (Form r) ''start'')"; cases "ParseFloat (Get (Form r) ''end'')";
      cases "ParseFloat (Get (Form r) ''step'')")
     (auto simp: extractPromQL_def newBadDataPromQLError_def Let_def)

theorem extractPromQL_bad_data_witness:
  "(\<lambda>s. if s = ''100'' then Some 100 else if s = ''50'' then Some 50
          else if s = ''10'' then Some (10::real) else None)
     (Get (Form \<lparr>Form = [''start'' \<mapsto> [''100''], ''end'' \<mapsto> [''50''], ''step'' \<mapsto> [''10'']]\<rparr>) ''start'')
     = Some 100 \<and>
   extractPromQL
     (\<lambda>s. if s = ''100'' then Some 100 else if s = ''50'' then Some 50
          else if s = ''10'' then Some 10 else None)
     \<lparr>Form = [''start'' \<mapsto> [''100''], ''end'' \<mapsto> [''50''], ''step'' \<mapsto> [''10'']]\<rparr> =
     Inl \<lparr>Status = ''error'', ErrorType = ''bad_data'',
          Err = ''end timestamp must not be before start time''\<rparr> \<and>
   extractPromQL
     (\<lambda>s. if s = ''100'' then Some 100 else if s = ''50'' then Some 50
          else if s = ''10'' then Some 10 else None)
     \<lparr>Form = [''start'' \<mapsto> [''100''], ''end'' \<mapsto> [''5x0''], ''step'' \<mapsto> [''10'']]\<rparr> =
     Inl \<lparr>Status = ''error'', ErrorType = ''bad_data'',
          Err = ''invalid parameter 'end': cannot parse \"5x0\" to a valid timestamp''\<rparr>"
proof -
  let ?pf = "\<lambda>s. if s = ''100'' then Some 100 else if s = ''50'' then Some 50
          else if s = ''10'' then Some (10::real) else None"
  let ?r = "\<lparr>Form = [''start'' \<mapsto> [''100''], ''end'' \<mapsto> [''50''], ''step'' \<mapsto> [''10'']]\<rparr>"
  let ?r2 = "\<lparr>Form = [''start'' \<mapsto> [''100''], ''end'' \<mapsto> [''5x0''], ''step'' \<mapsto> [''10'']]\<rparr>"
  have p: "?pf (Get (Form ?r) ''start'') = Some 100" "?pf (Get (Form ?r) ''end'') = Some 50"
    "?pf (Get (Form ?r) ''step'') = Some 10"
    by (simp_all add: Get_def)
  have p2: "?pf (Get (Form ?r2) ''start'') \<noteq> None" "?pf (Get (Form ?r2) ''end'') = None"
    "Get (Form ?r2) ''end'' = ''5x0''"
    by (simp_all add: Get_def)
  from extractPromQL_bad_data [of ?pf ?r] p
  have "extractPromQL ?pf ?r = Inl (newBadDataPromQLError ''end timestamp must not be before start time'')"
    by simp
  moreover from extractPromQL_bad_data [of ?pf ?r2] p2
  have "extractPromQL ?pf ?r2 = Inl (newBadDataPromQLError
        (''invalid parameter 'end': cannot parse \"'' @ ''5x0'' @ ''\" to a valid timestamp''))"
    by simp
  ultimately show ?thesis using p(1) by (simp add: newBadDataPromQLError_def)
qed

text \<open>
  A query that \<^verbatim>\<open>extractPromQL\<close> returns has a positive step and an end not before its
  start: what the resampler's properties assume of the query.
\<close>
theorem extractPromQL_query_invariant:
  "extractPromQL ParseFloat r = Inr query \<Longrightarrow> 0 < Step query \<and> Start query \<le> End query"
  by (auto simp: extractPromQL_def Let_def split: option.splits if_splits)

theorem extractPromQL_query_invariant_witness:
  "extractPromQL
     (\<lambda>s. if s = ''100'' then Some 100 else if s = ''130'' then Some 130
          else if s = ''10'' then Some 10 else None)
     \<lparr>Form = [''start'' \<mapsto> [''100''], ''end'' \<mapsto> [''130''], ''step'' \<mapsto> [''10''],
              ''query'' \<mapsto> [''up'']]\<rparr> =
     Inr \<lparr>Start = 100, End = 130, Step = 10, Query = ''up''\<rparr> \<and>
   0 < Step \<lparr>Start = 100, End = 130, Step = 10, Query = ''up''\<rparr> \<and>
   Start \<lparr>Start = 100, End = 130, Step = 10, Query = ''up''\<rparr> \<le>
     End \<lparr>Start = 100, End = 130, Step = 10, Query = ''up''\<rparr>"
proof -
  let ?pf = "\<lambda>s. if s = ''100'' then Some 100 else if s = ''130'' then Some 130
          else if s = ''10'' then Some (10::real) else None"
  let ?r = "\<lparr>Form = [''start'' \<mapsto> [''100''], ''end'' \<mapsto> [''130''], ''step'' \<mapsto> [''10''],
              ''query'' \<mapsto> [''up'']]\<rparr>"
  have run: "extractPromQL ?pf ?r = Inr \<lparr>Start = 100, End = 130, Step = 10, Query = ''up''\<rparr>"
    by (simp add: extractPromQL_def Get_def Let_def)
  from extractPromQL_query_invariant [OF run] run show ?thesis by blast
qed

section \<open>Properties of the label map\<close>

text \<open>
  C6. The label map of a raw series holds every entry of the tags; where no tag has the
  key, it maps \<^verbatim>\<open>"__name__"\<close> to the label exactly when the label is not empty and
  \<^verbatim>\<open>"instance"\<close> to the host exactly when the host is not empty; a tag with one of
  these keys wins over the label or host; and the map holds nothing else.
\<close>
theorem extractPromQLMetric_labels:
  "(\<forall>k v. Tags t k = Some v \<longrightarrow> extractPromQLMetric t k = Some v) \<and>
   (''__name__'' \<notin> dom (Tags t) \<longrightarrow>
      (extractPromQLMetric t ''__name__'' = Some (Label t) \<longleftrightarrow> Label t \<noteq> []) \<and>
      (extractPromQLMetric t ''__name__'' = None \<longleftrightarrow> Label t = [])) \<and>
   (''instance'' \<notin> dom (Tags t) \<longrightarrow>
      (extractPromQLMetric t ''instance'' = Some (Host t) \<longleftrightarrow> Host t \<noteq> []) \<and>
      (extractPromQLMetric t ''instance'' = None \<longleftrightarrow> Host t = [])) \<and>
   (\<forall>k. k \<notin> dom (Tags t) \<and> k \<noteq> ''__name__'' \<and> k \<noteq> ''instance'' \<longrightarrow>
      extractPromQLMetric t k = None)"
  by (auto simp: extractPromQLMetric_def Let_def map_add_def dom_def split: option.splits)

theorem extractPromQLMetric_labels_witness:
  "Tags \<lparr>Label = ''up'', Host = ''h1'', Tags = [''instance'' \<mapsto> ''i9'', ''dc'' \<mapsto> ''west''],
          DataPoints = []\<rparr> ''instance'' = Some ''i9'' \<and>
   ''__name__'' \<notin> dom (Tags \<lparr>Label = ''up'', Host = ''h1'',
          Tags = [''instance'' \<mapsto> ''i9'', ''dc'' \<mapsto> ''west''], DataPoints = []\<rparr>) \<and>
   extractPromQLMetric \<lparr>Label = ''up'', Host = ''h1'',
          Tags = [''instance'' \<mapsto> ''i9'', ''dc'' \<mapsto> ''west''], DataPoints = []\<rparr> ''instance'' = Some ''i9'' \<and>
   extractPromQLMetric \<lparr>Label = ''up'', Host = ''h1'',
          Tags = [''instance'' \<mapsto> ''i9'', ''dc'' \<mapsto> ''west''], DataPoints = []\<rparr> ''__name__'' = Some ''up''"
proof -
  let ?t = "\<lparr>Label = ''up'', Host = ''h1'', Tags = [''instance'' \<mapsto> ''i9'', ''dc'' \<mapsto> ''west''],
          DataPoints = []\<rparr>"
  have h: "Tags ?t ''instance'' = Some ''i9''" "''__name__'' \<notin> dom (Tags ?t)" "Label ?t \<noteq> []"
    "Label ?t = ''up''"
    by simp_all
  from extractPromQLMetric_labels [of ?t] h(1)
  have "extractPromQLMetric ?t ''instance'' = Some ''i9''" by blast
  moreover from extractPromQLMetric_labels [of ?t] h(2,3)
  have "extractPromQLMetric ?t ''__name__'' = Some (Label ?t)" by blast
  ultimately show ?thesis using h by simp
qed

section \<open>Properties of the skew correction\<close>

lemma length_skewLater_points [simp]: "length (skewLater_points s dps j) = length dps"
  by (induction s dps j rule: skewLater_points.induct) (subst skewLater_points.simps, simp)

lemma skewLater_points_eq:
  "skewLater_points s dps j = take j dps @ map (\<lambda>p. (fst p + s, snd p)) (drop j dps)"
proof (induction s dps j rule: skewLater_points.induct)
  case (1 s dps j)
  show ?case
  proof (cases "j < length dps")
    case True
    let ?dps = "dps[j := (fst (dps ! j) + s, snd (dps ! j))]"
    have "skewLater_points s dps j = skewLater_points s ?dps (j + 1)"
      using True by (subst skewLater_points.simps) simp
    also have "\<dots> = take (j + 1) ?dps @ map (\<lambda>p. (fst p + s, snd p)) (drop (j + 1) ?dps)"
      using True by (rule "1.IH")
    also have "take (j + 1) ?dps = take j dps @ [(fst (dps ! j) + s, snd (dps ! j))]"
      using True by (simp add: take_Suc_conv_app_nth)
    also have "drop (j + 1) ?dps = drop (j + 1) dps" by simp
    also have "(take j dps @ [(fst (dps ! j) + s, snd (dps ! j))]) @
        map (\<lambda>p. (fst p + s, snd p)) (drop (j + 1) dps) =
        take j dps @ map (\<lambda>p. (fst p + s, snd p)) (drop j dps)"
      using True by (simp add: Cons_nth_drop_Suc [symmetric])
    finally show ?thesis .
  next
    case False
    then show ?thesis by (subst skewLater_points.simps) simp
  qed
qed

lemma skewLater_series_eq:
  "skewLater_series s tss i =
     take i tss @ map (\<lambda>ts. ts\<lparr>DataPoints := map (\<lambda>p. (fst p + s, snd p)) (DataPoints ts)\<rparr>) (drop i tss)"
proof (induction s tss i rule: skewLater_series.induct)
  case (1 s tss i)
  let ?f = "\<lambda>ts. ts\<lparr>DataPoints := map (\<lambda>p. (fst p + s, snd p)) (DataPoints ts)\<rparr>"
  show ?case
  proof (cases "i < length tss")
    case True
    let ?tss = "tss[i := (tss ! i)\<lparr>DataPoints := skewLater_points s (DataPoints (tss ! i)) 0\<rparr>]"
    have upd: "?tss = tss[i := ?f (tss ! i)]" by (simp add: skewLater_points_eq)
    have "skewLater_series s tss i = skewLater_series s ?tss (i + 1)"
      using True by (subst skewLater_series.simps) simp
    also have "\<dots> = take (i + 1) ?tss @ map ?f (drop (i + 1) ?tss)"
      using True by (rule "1.IH")
    also have "take (i + 1) ?tss = take i tss @ [?f (tss ! i)]"
      using True unfolding upd by (simp add: take_Suc_conv_app_nth)
    also have "drop (i + 1) ?tss = drop (i + 1) tss" by simp
    also have "(take i tss @ [?f (tss ! i)]) @ map ?f (drop (i + 1) tss) =
        take i tss @ map ?f (drop i tss)"
      using True by (simp add: Cons_nth_drop_Suc [symmetric])
    finally show ?thesis .
  next
    case False
    then show ?thesis by (subst skewLater_series.simps) simp
  qed
qed

lemma skewLater_eq_map:
  "skewLater h response =
     response\<lparr>TimeSeries :=
       map (\<lambda>ts. ts\<lparr>DataPoints := map (\<lambda>p. (fst p + skew_seconds h, snd p)) (DataPoints ts)\<rparr>)
         (TimeSeries response)\<rparr>"
  by (simp add: skewLater_def skewLater_series_eq)

text \<open>
  C7. \<^verbatim>\<open>skewLater\<close> replaces the timestamp of every data point of every series by the
  timestamp plus the skew in seconds and changes nothing else: the number of series and of
  data points, every value, every label, host and tag map and the rest of the response are
  as before, and with skew 0 the response is the input.
\<close>
theorem skewLater_shifts_timestamps:
  "length (TimeSeries (skewLater h response)) = length (TimeSeries response) \<and>
   (\<forall>i < length (TimeSeries response).
      Label (TimeSeries (skewLater h response) ! i) = Label (TimeSeries response ! i) \<and>
      Host (TimeSeries (skewLater h response) ! i) = Host (TimeSeries response ! i) \<and>
      Tags (TimeSeries (skewLater h response) ! i) = Tags (TimeSeries response ! i) \<and>
      length (DataPoints (TimeSeries (skewLater h response) ! i)) =
        length (DataPoints (TimeSeries response ! i)) \<and>
      (\<forall>j < length (DataPoints (TimeSeries response ! i)).
         fst (DataPoints (TimeSeries (skewLater h response) ! i) ! j) =
           fst (DataPoints (TimeSeries response ! i) ! j) + skew_seconds h \<and>
         snd (DataPoints (TimeSeries (skewLater h response) ! i) ! j) =
           snd (DataPoints (TimeSeries response ! i) ! j))) \<and>
   ErrType (skewLater h response) = ErrType response \<and>
   ErrMessage (skewLater h response) = ErrMessage response \<and>
   QueryResponse.more (skewLater h response) = QueryResponse.more response \<and>
   (skew h = 0 \<longrightarrow> skewLater h response = response)"
proof -
  have "skewLater h response = response" if "skew h = 0"
  proof -
    have "(\<lambda>ts::TimeSeries. ts\<lparr>DataPoints := map (\<lambda>p. (fst p + skew_seconds h, snd p)) (DataPoints ts)\<rparr>) = (\<lambda>ts. ts)"
      using that by (simp add: skew_seconds_def)
    then show ?thesis by (simp add: skewLater_eq_map)
  qed
  then show ?thesis by (simp add: skewLater_eq_map)
qed

theorem skewLater_shifts_timestamps_witness:
  "(0::nat) < length (TimeSeries \<lparr>TimeSeries = [\<lparr>Label = ''up'', Host = ''h1'', Tags = Map.empty,
        DataPoints = [(100, 5), (105, 7)]\<rparr>], ErrType = '''', ErrMessage = ''''\<rparr>) \<and>
   skew \<lparr>skew = 0\<rparr> = 0 \<and>
   skewLater \<lparr>skew = 0\<rparr> \<lparr>TimeSeries = [\<lparr>Label = ''up'', Host = ''h1'', Tags = Map.empty,
        DataPoints = [(100, 5), (105, 7)]\<rparr>], ErrType = '''', ErrMessage = ''''\<rparr> =
     \<lparr>TimeSeries = [\<lparr>Label = ''up'', Host = ''h1'', Tags = Map.empty,
        DataPoints = [(100, 5), (105, 7)]\<rparr>], ErrType = '''', ErrMessage = ''''\<rparr> \<and>
   DataPoints (TimeSeries (skewLater \<lparr>skew = 2000000000\<rparr> \<lparr>TimeSeries = [\<lparr>Label = ''up'', Host = ''h1'',
        Tags = Map.empty, DataPoints = [(100, 5), (105, 7)]\<rparr>], ErrType = '''', ErrMessage = ''''\<rparr>) ! 0) =
     [(102, 5), (107, 7)]"
proof -
  let ?ts = "\<lparr>Label = ''up'', Host = ''h1'', Tags = Map.empty, DataPoints = [(100::real, 5::real), (105, 7)]\<rparr>"
  let ?r = "\<lparr>TimeSeries = [?ts], ErrType = '''', ErrMessage = ''''\<rparr>"
  let ?h = "\<lparr>skew = 2000000000\<rparr>"
  have a: "skew \<lparr>skew = 0\<rparr> = 0" "(0::nat) < length (TimeSeries ?r)" by simp_all
  from skewLater_shifts_timestamps [of "\<lparr>skew = 0\<rparr>" ?r] a
  have z: "skewLater \<lparr>skew = 0\<rparr> ?r = ?r" by blast
  let ?out = "DataPoints (TimeSeries (skewLater ?h ?r) ! 0)"
  from skewLater_shifts_timestamps [of ?h ?r]
  have len: "length ?out = 2"
    and pts: "\<forall>j<2. fst (?out ! j) = fst ([(100::real, 5::real), (105, 7)] ! j) + skew_seconds ?h \<and>
            snd (?out ! j) = snd ([(100::real, 5::real), (105, 7)] ! j)"
    by simp_all
  from pts have "?out ! 0 = (102, 5)" "?out ! 1 = (107, 7)"
    by (simp_all add: skew_seconds_def prod_eq_iff)
  with len have "?out = [(102, 5), (107, 7)]"
    by (simp add: list_eq_iff_nth_eq less_Suc_eq numeral_2_eq_2)
  with z a show ?thesis by simp
qed

section \<open>Properties of the sort\<close>

lemma sliceLess_from_drop:
  "i \<le> length lhs \<Longrightarrow> i \<le> length rhs \<Longrightarrow> sliceLess_from lhs rhs i = (drop i lhs < drop i rhs)"
proof (induction lhs rhs i rule: sliceLess_from.induct)
  case (1 lhs rhs i)
  show ?case
  proof (cases "i < length lhs \<and> i < length rhs")
    case True
    then have l: "drop i lhs = lhs ! i # drop (i + 1) lhs" and r: "drop i rhs = rhs ! i # drop (i + 1) rhs"
      by (simp_all add: Cons_nth_drop_Suc)
    show ?thesis
    proof (cases "lhs ! i < rhs ! i")
      case lt: True
      with True show ?thesis by (subst sliceLess_from.simps) (simp add: l r)
    next
      case nlt: False
      show ?thesis
      proof (cases "rhs ! i < lhs ! i")
        case True
        with \<open>i < length lhs \<and> i < length rhs\<close> nlt show ?thesis
          by (subst sliceLess_from.simps) (auto simp: l r)
      next
        case False
        with nlt have eq: "lhs ! i = rhs ! i" by simp
        have "sliceLess_from lhs rhs i = sliceLess_from lhs rhs (i + 1)"
          using True nlt False by (subst sliceLess_from.simps) simp
        also have "\<dots> = (drop (i + 1) lhs < drop (i + 1) rhs)"
          using True nlt False by (intro "1.IH") simp_all
        finally show ?thesis by (simp add: l r eq)
      qed
    qed
  next
    case False
    have "sliceLess_from lhs rhs i = (length lhs < length rhs)"
      by (subst sliceLess_from.simps) (simp only: False if_False)
    moreover have "(drop i lhs < drop i rhs) = (length lhs < length rhs)"
    proof (cases "i < length lhs")
      case True
      with False have "length rhs \<le> i" by simp
      with True show ?thesis by simp
    next
      case False
      with "1.prems" have i: "i = length lhs" by simp
      have "([] < drop i rhs) = (drop i rhs \<noteq> [])" by (cases "drop i rhs") simp_all
      also have "\<dots> = (length lhs < length rhs)" using i by auto
      finally show ?thesis using i by simp
    qed
    ultimately show ?thesis by simp
  qed
qed

lemma sliceLess_iff_less: "sliceLess lhs rhs \<longleftrightarrow> lhs < rhs"
  by (simp add: sliceLess_def sliceLess_from_drop)


text \<open>
  \<^verbatim>\<open>sort.Sort\<close> asks of \<^verbatim>\<open>Less\<close> a transitive ordering. \<^verbatim>\<open>sliceLess\<close> is a strict
  linear order: nothing is less than itself, it is transitive, and of two different
  sequences one is less than the other.
\<close>
theorem sliceLess_strict_order:
  "\<not> sliceLess a a \<and>
   (sliceLess a b \<and> sliceLess b c \<longrightarrow> sliceLess a c) \<and>
   (sliceLess a b \<or> a = b \<or> sliceLess b a)"
  by (auto simp: sliceLess_iff_less)

theorem sliceLess_strict_order_witness:
  "sliceLess [''a'', ''1''] [''a'', ''1'', ''b'', ''2''] \<and>
   sliceLess [''a'', ''1'', ''b'', ''2''] [''a'', ''2''] \<and>
   sliceLess [''a'', ''1''] [''a'', ''2'']"
proof -
  have h: "sliceLess [''a'', ''1''] [''a'', ''1'', ''b'', ''2'']"
    "sliceLess [''a'', ''1'', ''b'', ''2''] [''a'', ''2'']"
    by (simp_all add: sliceLess_def sliceLess_from.simps)
  from sliceLess_strict_order [of "[''a'', ''1'']" "[''a'', ''1'', ''b'', ''2'']" "[''a'', ''2'']"] h
  show ?thesis by blast
qed

lemma aligned_initialize: "aligned (initialize p)"
  by (simp add: aligned_def initialize_def)

lemma timeSeries_initialize [simp]: "timeSeries (initialize p) = timeSeries p"
  by (simp add: initialize_def)

lemma aligned_Swap: "aligned p \<Longrightarrow> i < Len p \<Longrightarrow> j < Len p \<Longrightarrow> aligned (Swap p i j)"
  by (simp add: aligned_def Swap_def Len_def map_update)

lemma mset_Swap: "i < Len p \<Longrightarrow> j < Len p \<Longrightarrow> mset (timeSeries (Swap p i j)) = mset (timeSeries p)"
  by (simp add: Swap_def Len_def mset_swap)

lemma Len_Swap [simp]: "Len (Swap p i j) = Len p"
  by (simp add: Swap_def Len_def)

lemma swapped_sorter:
  "swapped Len Swap p p' \<Longrightarrow> aligned p \<Longrightarrow>
     aligned p' \<and> mset (timeSeries p') = mset (timeSeries p)"
  by (induction rule: swapped.induct) (simp_all add: aligned_Swap mset_Swap)

lemma sort_contract_sorter:
  assumes "sort_contract sort_Sort Len Less Swap (initialize \<lparr>timeSeries = ts, metricKeyValues = []\<rparr>)"
  shows "mset (sortTimeSeriesInPlace sort_Sort ts) = mset ts"
    and "sorted_wrt (\<lambda>a b. \<not> sliceLess (metricMapToSlice (Metric b)) (metricMapToSlice (Metric a)))
           (sortTimeSeriesInPlace sort_Sort ts)"
proof -
  let ?p = "initialize \<lparr>timeSeries = ts, metricKeyValues = []\<rparr>"
  let ?p' = "sort_Sort Len Less Swap ?p"
  have out: "sortTimeSeriesInPlace sort_Sort ts = timeSeries ?p'"
    by (simp add: sortTimeSeriesInPlace_def Let_def)
  from assms have sw: "swapped Len Swap ?p ?p'"
    and ord: "\<And>i j. i < j \<Longrightarrow> j < Len ?p' \<Longrightarrow> \<not> Less ?p' j i"
    by (simp_all add: sort_contract_def)
  from swapped_sorter [OF sw aligned_initialize]
  have al: "aligned ?p'" and ms: "mset (timeSeries ?p') = mset ts" by simp_all
  show "mset (sortTimeSeriesInPlace sort_Sort ts) = mset ts" using ms out by simp
  have "\<not> sliceLess (metricMapToSlice (Metric (timeSeries ?p' ! j)))
            (metricMapToSlice (Metric (timeSeries ?p' ! i)))"
    if "i < j" "j < length (timeSeries ?p')" for i j
    using ord [of i j] that al by (simp add: Less_def Len_def aligned_def)
  then show "sorted_wrt (\<lambda>a b. \<not> sliceLess (metricMapToSlice (Metric b)) (metricMapToSlice (Metric a)))
           (sortTimeSeriesInPlace sort_Sort ts)"
    unfolding out by (simp add: sorted_wrt_iff_nth_less)
qed

lemma metricMapToSlice_from_any_order:
  assumes "distinct keys" and "set keys = dom metric"
  shows "metricMapToSlice_from keys metric = metricMapToSlice metric"
proof -
  have "sort keys = sorted_list_of_set (dom metric)"
    using assms by (metis distinct_remdups_id sorted_list_of_set_sort_remdups)
  moreover have "sort (sorted_list_of_set (dom metric)) = sorted_list_of_set (dom metric)"
    by (simp add: sorted_sort_id)
  ultimately show ?thesis by (simp add: metricMapToSlice_def metricMapToSlice_from_def)
qed

subsection \<open>The sort routine keeps to swaps\<close>

lemma shellPass_swapped:
  "\<forall>p i j. len (swp p i j) = len p \<Longrightarrow> swapped len swp p0 p \<Longrightarrow> b \<le> len p \<Longrightarrow>
     swapped len swp p0 (shellPass lt swp p b i) \<and> len (shellPass lt swp p b i) = len p"
proof (induction lt swp p b i rule: shellPass.induct)
  case (1 lt swp p b i)
  note len = "1.prems"(1)
  show ?case
  proof (cases "i < b")
    case True
    let ?p = "if lt p i (i - 6) then swp p i (i - 6) else p"
    have "swapped len swp p0 ?p" using "1.prems" True by (auto intro: swapped_step)
    moreover have l: "len ?p = len p" using len by simp
    ultimately have "swapped len swp p0 (shellPass lt swp ?p b (i + 1)) \<and>
        len (shellPass lt swp ?p b (i + 1)) = len ?p"
      using "1.prems" True by (intro "1.IH") simp_all
    with True l show ?thesis by (subst (1 2) shellPass.simps) simp
  next
    case False
    with "1.prems" show ?thesis by (subst (1 2) shellPass.simps) simp
  qed
qed

lemma insertionSort_sink_swapped:
  "\<forall>p i j. len (swp p i j) = len p \<Longrightarrow> swapped len swp p0 p \<Longrightarrow> j < len p \<Longrightarrow>
     swapped len swp p0 (insertionSort_sink lt swp p a j) \<and>
     len (insertionSort_sink lt swp p a j) = len p"
proof (induction lt swp p a j rule: insertionSort_sink.induct)
  case (1 lt swp p a j)
  note len = "1.prems"(1)
  show ?case
  proof (cases "j > a \<and> lt p j (j - 1)")
    case True
    have "swapped len swp p0 (swp p j (j - 1))" using "1.prems" by (auto intro: swapped_step)
    moreover have "j - 1 < len (swp p j (j - 1))" using "1.prems" by simp
    ultimately have "swapped len swp p0 (insertionSort_sink lt swp (swp p j (j - 1)) a (j - 1)) \<and>
        len (insertionSort_sink lt swp (swp p j (j - 1)) a (j - 1)) = len (swp p j (j - 1))"
      using len True by (intro "1.IH") simp_all
    with True len show ?thesis by (subst (1 2) insertionSort_sink.simps) simp
  next
    case False
    with "1.prems" show ?thesis by (subst (1 2) insertionSort_sink.simps) auto
  qed
qed

lemma insertionSort_from_swapped:
  "\<forall>p i j. len (swp p i j) = len p \<Longrightarrow> swapped len swp p0 p \<Longrightarrow> b \<le> len p \<Longrightarrow>
     swapped len swp p0 (insertionSort_from lt swp p a b i) \<and>
     len (insertionSort_from lt swp p a b i) = len p"
proof (induction lt swp p a b i rule: insertionSort_from.induct)
  case (1 lt swp p a b i)
  note len = "1.prems"(1)
  show ?case
  proof (cases "i < b")
    case True
    let ?p = "insertionSort_sink lt swp p a i"
    have s: "swapped len swp p0 ?p \<and> len ?p = len p"
      using "1.prems" True by (intro insertionSort_sink_swapped) simp_all
    then have "swapped len swp p0 (insertionSort_from lt swp ?p a b (i + 1)) \<and>
        len (insertionSort_from lt swp ?p a b (i + 1)) = len ?p"
      using "1.prems" True by (intro "1.IH") simp_all
    with True s show ?thesis by (subst (1 2) insertionSort_from.simps) simp
  next
    case False
    with "1.prems" show ?thesis by (subst (1 2) insertionSort_from.simps) simp
  qed
qed

lemma shellInsertionSort_swapped:
  assumes len: "\<forall>p i j. len (swp p i j) = len p"
  shows "swapped len swp p (shellInsertionSort len lt swp p)"
proof (cases "len p > 1")
  case True
  have "swapped len swp p (shellPass lt swp p (len p) 6) \<and>
      len (shellPass lt swp p (len p) 6) = len p"
    using len by (intro shellPass_swapped swapped_refl) simp_all
  then have "swapped len swp p (insertionSort_from lt swp (shellPass lt swp p (len p) 6) 0 (len p) (0 + 1)) \<and>
      len (insertionSort_from lt swp (shellPass lt swp p (len p) 6) 0 (len p) (0 + 1)) =
        len (shellPass lt swp p (len p) 6)"
    using len by (intro insertionSort_from_swapped) simp_all
  with True show ?thesis by (simp add: shellInsertionSort_def insertionSort_def Let_def)
next
  case False
  then show ?thesis by (simp add: shellInsertionSort_def Let_def swapped_refl)
qed

lemma sorted_keys_contract:
  assumes "swapped Len Swap p (sort_Sort Len Less Swap p)"
    and "length (metricKeyValues (sort_Sort Len Less Swap p)) = Len (sort_Sort Len Less Swap p)"
    and "sorted (metricKeyValues (sort_Sort Len Less Swap p))"
  shows "sort_contract sort_Sort Len Less Swap p"
  using assms by (auto simp: sort_contract_def Less_def sliceLess_iff_less sorted_iff_nth_mono not_less)

lemma metricMapToSlice_series: "metricMapToSlice (Metric (series name v)) = [''__name__'', name]"
  by (simp add: series_def metricMapToSlice_def metricMapToSlice_from_def map_index_def)

text \<open>
  \<^verbatim>\<open>Swap\<close> on two indices below \<^verbatim>\<open>Len\<close> exchanges the two series and their keys
  together: the keys stay those of the series beside them, and the series are the same
  ones as before.
\<close>
theorem Swap_keeps_keys_with_series:
  "aligned p \<Longrightarrow> i < Len p \<Longrightarrow> j < Len p \<Longrightarrow>
   aligned (Swap p i j) \<and> Len (Swap p i j) = Len p \<and>
   mset (timeSeries (Swap p i j)) = mset (timeSeries p) \<and>
   timeSeries (Swap p i j) ! i = timeSeries p ! j \<and> timeSeries (Swap p i j) ! j = timeSeries p ! i"
  by (auto simp: aligned_Swap mset_Swap) (auto simp: Swap_def Len_def nth_list_update)

theorem Swap_keeps_keys_with_series_witness:
  "aligned (initialize \<lparr>timeSeries = [series ''b'' ''1'', series ''a'' ''2''], metricKeyValues = []\<rparr>) \<and>
   (0::nat) < Len (initialize \<lparr>timeSeries = [series ''b'' ''1'', series ''a'' ''2''], metricKeyValues = []\<rparr>) \<and>
   (1::nat) < Len (initialize \<lparr>timeSeries = [series ''b'' ''1'', series ''a'' ''2''], metricKeyValues = []\<rparr>) \<and>
   aligned (Swap (initialize \<lparr>timeSeries = [series ''b'' ''1'', series ''a'' ''2''], metricKeyValues = []\<rparr>) 0 1) \<and>
   Swap (initialize \<lparr>timeSeries = [series ''b'' ''1'', series ''a'' ''2''], metricKeyValues = []\<rparr>) 0 1 =
     \<lparr>timeSeries = [series ''a'' ''2'', series ''b'' ''1''],
      metricKeyValues = [[''__name__'', ''a''], [''__name__'', ''b'']]\<rparr>"
proof -
  let ?p = "initialize \<lparr>timeSeries = [series ''b'' ''1'', series ''a'' ''2''], metricKeyValues = []\<rparr>"
  have h: "aligned ?p" "(0::nat) < Len ?p" "(1::nat) < Len ?p"
    by (simp_all add: aligned_initialize Len_def)
  have "Swap ?p 0 1 = \<lparr>timeSeries = [series ''a'' ''2'', series ''b'' ''1''],
      metricKeyValues = [[''__name__'', ''a''], [''__name__'', ''b'']]\<rparr>"
    by (simp add: Swap_def initialize_def metricMapToSlice_series)
  with Swap_keeps_keys_with_series [OF h] h show ?thesis by simp
qed

lemma series_eq_iff: "series n v = series n' v' \<longleftrightarrow> n = n' \<and> v = v'"
  by (auto simp: series_def fun_eq_iff split: if_splits)

lemmas sort_eval =
  shellInsertionSort_def insertionSort_def Let_def Len_def Less_def Swap_def initialize_def
  shellPass.simps insertionSort_from.simps insertionSort_sink.simps
  sliceLess_iff_less

lemma shellInsertionSort_sorter_swapped:
  "swapped Len Swap p (shellInsertionSort Len Less Swap p)"
  by (rule shellInsertionSort_swapped) simp

lemma keys_Swap: "metricKeyValues (Swap p i j) =
    (metricKeyValues p)[i := metricKeyValues p ! j, j := metricKeyValues p ! i]"
  by (simp add: Swap_def)

lemma length_keys_Swap [simp]: "length (metricKeyValues (Swap p i j)) = length (metricKeyValues p)"
  by (simp add: Swap_def)

lemma sink_keys:
  "j < length (metricKeyValues p) \<Longrightarrow>
   metricKeyValues (insertionSort_sink Less Swap p 0 j) =
     rev (sink_list (metricKeyValues p ! j) (rev (take j (metricKeyValues p)))) @
     drop (j + 1) (metricKeyValues p)"
proof (induction j arbitrary: p)
  case 0
  then show ?case
    by (subst insertionSort_sink.simps) (simp add: Cons_nth_drop_Suc)
next
  case (Suc j)
  let ?ks = "metricKeyValues p"
  show ?case
  proof (cases "Less p (Suc j) j")
    case True
    then have lt: "?ks ! Suc j < ?ks ! j" by (simp add: Less_def sliceLess_iff_less)
    let ?p = "Swap p (Suc j) j"
    have ks': "metricKeyValues ?p = ?ks[Suc j := ?ks ! j, j := ?ks ! Suc j]" by (rule keys_Swap)
    have "insertionSort_sink Less Swap p 0 (Suc j) = insertionSort_sink Less Swap ?p 0 j"
      using True by (subst insertionSort_sink.simps) simp
    also have "metricKeyValues \<dots> =
        rev (sink_list (metricKeyValues ?p ! j) (rev (take j (metricKeyValues ?p)))) @
        drop (j + 1) (metricKeyValues ?p)"
      using Suc.prems by (intro Suc.IH) simp
    also have "metricKeyValues ?p ! j = ?ks ! Suc j" using Suc.prems by (simp add: ks')
    also have "take j (metricKeyValues ?p) = take j ?ks" by (simp add: ks')
    also have "drop (j + 1) (metricKeyValues ?p) = ?ks ! j # drop (Suc j + 1) ?ks"
      using Suc.prems by (simp add: ks' drop_update_swap Cons_nth_drop_Suc [symmetric] del: drop_Suc_Cons)
    finally have "metricKeyValues (insertionSort_sink Less Swap p 0 (Suc j)) =
        rev (sink_list (?ks ! Suc j) (rev (take j ?ks))) @ ?ks ! j # drop (Suc j + 1) ?ks" .
    moreover have "take (Suc j) ?ks = take j ?ks @ [?ks ! j]"
      using Suc.prems by (simp add: take_Suc_conv_app_nth)
    ultimately show ?thesis using lt by simp
  next
    case False
    then have nlt: "\<not> ?ks ! Suc j < ?ks ! j" by (simp add: Less_def sliceLess_iff_less)
    have "insertionSort_sink Less Swap p 0 (Suc j) = p"
      using False by (subst insertionSort_sink.simps) simp
    moreover have "take (Suc j) ?ks = take j ?ks @ [?ks ! j]"
      using Suc.prems by (simp add: take_Suc_conv_app_nth)
    moreover have "?ks = take (Suc j) ?ks @ ?ks ! Suc j # drop (Suc j + 1) ?ks"
      using Suc.prems by (simp add: Cons_nth_drop_Suc)
    ultimately show ?thesis using nlt by simp
  qed
qed

lemma set_sink_list: "set (sink_list x ys) = insert x (set ys)"
  by (induction ys) auto

lemma sorted_rev_sink_list:
  "sorted (rev ys) \<Longrightarrow> sorted (rev (sink_list x ys))"
  by (induction ys) (auto simp: sorted_append set_sink_list)

lemma length_sink_list [simp]: "length (sink_list x ys) = Suc (length ys)"
  by (induction ys) auto

lemma from_keys_sorted:
  "i \<le> b \<Longrightarrow> b \<le> length (metricKeyValues p) \<Longrightarrow> sorted (take i (metricKeyValues p)) \<Longrightarrow>
   sorted (take b (metricKeyValues (insertionSort_from Less Swap p 0 b i))) \<and>
   length (metricKeyValues (insertionSort_from Less Swap p 0 b i)) = length (metricKeyValues p)"
proof (induction Less Swap p "0::nat" b i rule: insertionSort_from.induct)
  case (1 p b i)
  show ?case
  proof (cases "i < b")
    case True
    let ?ks = "metricKeyValues p"
    let ?p = "insertionSort_sink Less Swap p 0 i"
    have ks': "metricKeyValues ?p = rev (sink_list (?ks ! i) (rev (take i ?ks))) @ drop (i + 1) ?ks"
      using True "1.prems" by (intro sink_keys) simp
    have len: "length (metricKeyValues ?p) = length ?ks"
      using True "1.prems" by (simp add: ks')
    have "take (i + 1) (metricKeyValues ?p) = rev (sink_list (?ks ! i) (rev (take i ?ks)))"
      using True "1.prems" by (simp add: ks')
    then have "sorted (take (i + 1) (metricKeyValues ?p))"
      using "1.prems" by (simp add: sorted_rev_sink_list)
    then have "sorted (take b (metricKeyValues (insertionSort_from Less Swap ?p 0 b (i + 1)))) \<and>
        length (metricKeyValues (insertionSort_from Less Swap ?p 0 b (i + 1))) =
          length (metricKeyValues ?p)"
      using True "1.prems" len by (intro "1.hyps") simp_all
    with True len show ?thesis by (subst (1 2) insertionSort_from.simps) simp
  next
    case False
    with "1.prems" show ?thesis by (subst (1 2) insertionSort_from.simps) simp
  qed
qed

lemma aligned_length: "aligned p \<Longrightarrow> length (metricKeyValues p) = Len p"
  by (simp add: aligned_def Len_def)

lemma shellInsertionSort_keeps_contract:
  assumes al: "aligned p"
  shows "sort_contract shellInsertionSort Len Less Swap p"
proof -
  let ?p' = "shellInsertionSort Len Less Swap p"
  have sw: "swapped Len Swap p ?p'" by (rule shellInsertionSort_sorter_swapped)
  from swapped_sorter [OF sw al] have al': "aligned ?p'" by simp
  have "sorted (metricKeyValues ?p')"
  proof (cases "Len p > 1")
    case True
    let ?p1 = "shellPass Less Swap p (Len p) 6"
    have "swapped Len Swap p ?p1 \<and> Len ?p1 = Len p"
      by (intro shellPass_swapped swapped_refl) simp_all
    with swapped_sorter [OF _ al, of ?p1] have l1: "length (metricKeyValues ?p1) = Len p"
      by (simp add: aligned_length)
    have "sorted (take (Len p) (metricKeyValues (insertionSort_from Less Swap ?p1 0 (Len p) 1))) \<and>
        length (metricKeyValues (insertionSort_from Less Swap ?p1 0 (Len p) 1)) =
          length (metricKeyValues ?p1)"
      using True l1 by (intro from_keys_sorted) (simp_all add: sorted01)
    then have "sorted (metricKeyValues (insertionSort_from Less Swap ?p1 0 (Len p) 1))"
      using l1 by (metis order_refl take_all)
    with True show ?thesis
      by (simp add: shellInsertionSort_def insertionSort_def Let_def)
  next
    case False
    then have "length (metricKeyValues p) \<le> 1" using al by (simp add: aligned_length)
    then have "sorted (metricKeyValues p)" by (simp add: sorted01)
    with False show ?thesis by (simp add: shellInsertionSort_def Let_def)
  qed
  with sw al' show ?thesis by (intro sorted_keys_contract) (simp_all add: aligned_length)
qed




text \<open>
  C5, as amended. \<^verbatim>\<open>sortTimeSeriesInPlace\<close> calls \<^verbatim>\<open>sort.Sort\<close>, not
  \<^verbatim>\<open>sort.Stable\<close>, and the two differ in the order of equal elements. What holds for every
  \<^verbatim>\<open>sort.Sort\<close> that keeps its contract: the output is a rearrangement of the input, the
  sequence of sort keys of the output is the sorted sequence of the keys of the input (so
  the place of a series among series with other keys is determined), and the key of a
  series does not depend on the order in which \<^verbatim>\<open>range\<close> yields the labels. The
  order of series with equal keys is left open.
\<close>
theorem sortTimeSeriesInPlace_rearranges:
  assumes "sort_contract sort_Sort Len Less Swap (initialize \<lparr>timeSeries = ts, metricKeyValues = []\<rparr>)"
  shows "mset (sortTimeSeriesInPlace sort_Sort ts) = mset ts \<and>
         map (\<lambda>s. metricMapToSlice (Metric s)) (sortTimeSeriesInPlace sort_Sort ts) =
           sort (map (\<lambda>s. metricMapToSlice (Metric s)) ts) \<and>
         (\<forall>metric keys keys'.
            distinct keys \<and> set keys = dom metric \<and> distinct keys' \<and> set keys' = dom metric \<longrightarrow>
            metricMapToSlice_from keys metric = metricMapToSlice_from keys' metric)"
proof -
  let ?key = "\<lambda>s. metricMapToSlice (Metric s)"
  let ?out = "sortTimeSeriesInPlace sort_Sort ts"
  have ms: "mset ?out = mset ts" by (rule sort_contract_sorter(1) [OF assms])
  have "sorted_wrt (\<lambda>a b. ?key a \<le> ?key b) ?out"
    using sort_contract_sorter(2) [OF assms] by (simp add: sliceLess_iff_less not_less)
  then have "sorted (map ?key ?out)" by (simp add: sorted_wrt_map)
  moreover have "mset (map ?key ?out) = mset (map ?key ts)" using ms by (metis mset_map)
  ultimately have "sort (map ?key ts) = map ?key ?out" by (intro properties_for_sort)
  moreover have "metricMapToSlice_from keys metric = metricMapToSlice_from keys' metric"
    if "distinct keys \<and> set keys = dom metric \<and> distinct keys' \<and> set keys' = dom metric"
    for metric keys keys'
    using that by (simp add: metricMapToSlice_from_any_order)
  ultimately show ?thesis using ms by simp
qed

lemma run_seven:
  "shellInsertionSort Len Less Swap (initialize \<lparr>timeSeries =
      [series ''b'' ''1'', series ''b'' ''2'', series ''c'' ''3'', series ''c'' ''4'',
       series ''c'' ''5'', series ''c'' ''6'', series ''a'' ''7''], metricKeyValues = []\<rparr>) =
   \<lparr>timeSeries =
      [series ''a'' ''7'', series ''b'' ''2'', series ''b'' ''1'', series ''c'' ''3'',
       series ''c'' ''4'', series ''c'' ''5'', series ''c'' ''6''],
    metricKeyValues = [[''__name__'', ''a''], [''__name__'', ''b''], [''__name__'', ''b''],
       [''__name__'', ''c''], [''__name__'', ''c''], [''__name__'', ''c''], [''__name__'', ''c'']]\<rparr>"
  by (simp add: sort_eval metricMapToSlice_series)

lemma contract_seven:
  "sort_contract shellInsertionSort Len Less Swap (initialize \<lparr>timeSeries =
      [series ''b'' ''1'', series ''b'' ''2'', series ''c'' ''3'', series ''c'' ''4'',
       series ''c'' ''5'', series ''c'' ''6'', series ''a'' ''7''], metricKeyValues = []\<rparr>)"
  by (rule shellInsertionSort_keeps_contract [OF aligned_initialize])

lemma sorted_seven:
  "sortTimeSeriesInPlace shellInsertionSort
     [series ''b'' ''1'', series ''b'' ''2'', series ''c'' ''3'', series ''c'' ''4'',
      series ''c'' ''5'', series ''c'' ''6'', series ''a'' ''7''] =
     [series ''a'' ''7'', series ''b'' ''2'', series ''b'' ''1'', series ''c'' ''3'',
      series ''c'' ''4'', series ''c'' ''5'', series ''c'' ''6'']"
  unfolding sortTimeSeriesInPlace_def Let_def run_seven by simp

theorem sortTimeSeriesInPlace_rearranges_witness:
  "sort_contract shellInsertionSort Len Less Swap (initialize \<lparr>timeSeries =
      [series ''b'' ''1'', series ''b'' ''2'', series ''c'' ''3'', series ''c'' ''4'',
       series ''c'' ''5'', series ''c'' ''6'', series ''a'' ''7''], metricKeyValues = []\<rparr>) \<and>
   mset (sortTimeSeriesInPlace shellInsertionSort
      [series ''b'' ''1'', series ''b'' ''2'', series ''c'' ''3'', series ''c'' ''4'',
       series ''c'' ''5'', series ''c'' ''6'', series ''a'' ''7'']) =
   mset [series ''b'' ''1'', series ''b'' ''2'', series ''c'' ''3'', series ''c'' ''4'',
       series ''c'' ''5'', series ''c'' ''6'', series ''a'' ''7''] \<and>
   map (\<lambda>s. metricMapToSlice (Metric s)) (sortTimeSeriesInPlace shellInsertionSort
      [series ''b'' ''1'', series ''b'' ''2'', series ''c'' ''3'', series ''c'' ''4'',
       series ''c'' ''5'', series ''c'' ''6'', series ''a'' ''7'']) =
   [[''__name__'', ''a''], [''__name__'', ''b''], [''__name__'', ''b''],
    [''__name__'', ''c''], [''__name__'', ''c''], [''__name__'', ''c''], [''__name__'', ''c'']]"
proof -
  have "sort (map (\<lambda>s. metricMapToSlice (Metric s))
      [series ''b'' ''1'', series ''b'' ''2'', series ''c'' ''3'', series ''c'' ''4'',
       series ''c'' ''5'', series ''c'' ''6'', series ''a'' ''7'']) =
    [[''__name__'', ''a''], [''__name__'', ''b''], [''__name__'', ''b''],
     [''__name__'', ''c''], [''__name__'', ''c''], [''__name__'', ''c''], [''__name__'', ''c'']]"
    by (simp add: metricMapToSlice_series)
  with sortTimeSeriesInPlace_rearranges [OF contract_seven] contract_seven show ?thesis by simp
qed

text \<open>
  C5 as stated says the sort is stable. Seven series, the first two with the same labels:
  the gap-6 pass exchanges the first with the last, and the insertion sort then moves it
  back to the place behind the second. The routine keeps the contract of
  \<^verbatim>\<open>sort.Sort\<close> on this input, and the two series with key \<^verbatim>\<open>__name__, b\<close> come out in
  the other order.
\<close>
theorem sortTimeSeriesInPlace_stable_counterexample:
  "sort_contract shellInsertionSort Len Less Swap (initialize \<lparr>timeSeries =
      [series ''b'' ''1'', series ''b'' ''2'', series ''c'' ''3'', series ''c'' ''4'',
       series ''c'' ''5'', series ''c'' ''6'', series ''a'' ''7''], metricKeyValues = []\<rparr>) \<and>
   sortTimeSeriesInPlace shellInsertionSort
     [series ''b'' ''1'', series ''b'' ''2'', series ''c'' ''3'', series ''c'' ''4'',
      series ''c'' ''5'', series ''c'' ''6'', series ''a'' ''7''] =
     [series ''a'' ''7'', series ''b'' ''2'', series ''b'' ''1'', series ''c'' ''3'',
      series ''c'' ''4'', series ''c'' ''5'', series ''c'' ''6''] \<and>
   metricMapToSlice (Metric (series ''b'' ''1'')) = metricMapToSlice (Metric (series ''b'' ''2'')) \<and>
   \<not> stable_on
     [series ''b'' ''1'', series ''b'' ''2'', series ''c'' ''3'', series ''c'' ''4'',
      series ''c'' ''5'', series ''c'' ''6'', series ''a'' ''7'']
     (sortTimeSeriesInPlace shellInsertionSort
       [series ''b'' ''1'', series ''b'' ''2'', series ''c'' ''3'', series ''c'' ''4'',
        series ''c'' ''5'', series ''c'' ''6'', series ''a'' ''7''])"
proof -
  have "\<not> stable_on
     [series ''b'' ''1'', series ''b'' ''2'', series ''c'' ''3'', series ''c'' ''4'',
      series ''c'' ''5'', series ''c'' ''6'', series ''a'' ''7'']
     [series ''a'' ''7'', series ''b'' ''2'', series ''b'' ''1'', series ''c'' ''3'',
      series ''c'' ''4'', series ''c'' ''5'', series ''c'' ''6'']"
    unfolding stable_on_def
    by (rule notI, drule spec [of _ "[''__name__'', ''b'']"])
       (simp add: metricMapToSlice_series series_eq_iff)
  with contract_seven sorted_seven show ?thesis by (simp add: metricMapToSlice_series)
qed

text \<open>
  C9. \<^verbatim>\<open>convertFromWavefront\<close> returns an error if and only if the error type of the
  backend's response is not empty; the error has status \<^verbatim>\<open>"error"\<close>, error type
  \<^verbatim>\<open>"bad_data"\<close> and the backend's message as it came. Otherwise it returns a response
  with status \<^verbatim>\<open>"success"\<close> and result type \<^verbatim>\<open>"matrix"\<close> whose series are, where
  \<^verbatim>\<open>sort.Sort\<close> keeps its contract, a rearrangement of the series assembled one from each
  input series: as many as the input has. The outcome is one or the other, never a mixture.
\<close>
theorem convertFromWavefront_all_or_nothing:
  "((\<exists>e. convertFromWavefront sort_Sort floatToString response query = Inl e) \<longleftrightarrow>
      ErrType response \<noteq> []) \<and>
   (ErrType response \<noteq> [] \<longrightarrow>
      convertFromWavefront sort_Sort floatToString response query =
        Inl \<lparr>Status = ''error'', ErrorType = ''bad_data'', Err = ErrMessage response\<rparr>) \<and>
   (ErrType response = [] \<longrightarrow>
      (\<exists>res. convertFromWavefront sort_Sort floatToString response query = Inr res \<and>
         Status_resp res = ''success'' \<and> ResultType (Data res) = ''matrix'' \<and>
         (sort_contract sort_Sort Len Less Swap
            (initialize \<lparr>timeSeries = convertFromWavefront_result floatToString response query,
                         metricKeyValues = []\<rparr>) \<longrightarrow>
          length (Result (Data res)) = length (TimeSeries response) \<and>
          mset (Result (Data res)) =
            mset (map (\<lambda>t. \<lparr>Metric = extractPromQLMetric t,
                             Values = extractPromQLData floatToString (DataPoints t) query\<rparr>)
                   (TimeSeries response)))))"
proof -
  let ?unsorted = "convertFromWavefront_result floatToString response query"
  have "length (sortTimeSeriesInPlace sort_Sort ?unsorted) = length (TimeSeries response) \<and>
        mset (sortTimeSeriesInPlace sort_Sort ?unsorted) =
          mset (map (\<lambda>t. \<lparr>Metric = extractPromQLMetric t,
                             Values = extractPromQLData floatToString (DataPoints t) query\<rparr>)
                   (TimeSeries response))"
    if c: "sort_contract sort_Sort Len Less Swap
            (initialize \<lparr>timeSeries = ?unsorted, metricKeyValues = []\<rparr>)"
  proof -
    have ms: "mset (sortTimeSeriesInPlace sort_Sort ?unsorted) = mset ?unsorted"
      by (rule sort_contract_sorter(1) [OF c])
    then have "length (sortTimeSeriesInPlace sort_Sort ?unsorted) = length ?unsorted"
      by (rule mset_eq_length)
    with ms show ?thesis by (simp add: convertFromWavefront_result_def)
  qed
  then show ?thesis
    by (simp add: convertFromWavefront_def newBadDataPromQLError_def Let_def)
qed

theorem convertFromWavefront_all_or_nothing_witness:
  "ErrType \<lparr>TimeSeries = [], ErrType = ''QuerySyntaxError'', ErrMessage = ''bad query''\<rparr> \<noteq> [] \<and>
   convertFromWavefront shellInsertionSort (\<lambda>v. ''v'')
     \<lparr>TimeSeries = [], ErrType = ''QuerySyntaxError'', ErrMessage = ''bad query''\<rparr>
     \<lparr>Start = 100, End = 110, Step = 5, Query = ''up''\<rparr> =
     Inl \<lparr>Status = ''error'', ErrorType = ''bad_data'', Err = ''bad query''\<rparr> \<and>
   ErrType \<lparr>TimeSeries = [\<lparr>Label = ''up'', Host = ''h2'', Tags = Map.empty, DataPoints = []\<rparr>,
                          \<lparr>Label = ''up'', Host = ''h1'', Tags = Map.empty, DataPoints = []\<rparr>],
           ErrType = '''', ErrMessage = ''''\<rparr> = [] \<and>
   sort_contract shellInsertionSort Len Less Swap
     (initialize \<lparr>timeSeries = convertFromWavefront_result (\<lambda>v. ''v'')
        \<lparr>TimeSeries = [\<lparr>Label = ''up'', Host = ''h2'', Tags = Map.empty, DataPoints = []\<rparr>,
                        \<lparr>Label = ''up'', Host = ''h1'', Tags = Map.empty, DataPoints = []\<rparr>],
         ErrType = '''', ErrMessage = ''''\<rparr>
        \<lparr>Start = 100, End = 110, Step = 5, Query = ''up''\<rparr>, metricKeyValues = []\<rparr>) \<and>
   (\<exists>res. convertFromWavefront shellInsertionSort (\<lambda>v. ''v'')
        \<lparr>TimeSeries = [\<lparr>Label = ''up'', Host = ''h2'', Tags = Map.empty, DataPoints = []\<rparr>,
                        \<lparr>Label = ''up'', Host = ''h1'', Tags = Map.empty, DataPoints = []\<rparr>],
         ErrType = '''', ErrMessage = ''''\<rparr>
        \<lparr>Start = 100, End = 110, Step = 5, Query = ''up''\<rparr> = Inr res \<and>
      Status_resp res = ''success'' \<and> ResultType (Data res) = ''matrix'' \<and>
      length (Result (Data res)) = 2) \<and>
   convertFromWavefront shellInsertionSort (\<lambda>v. ''v'')
        \<lparr>TimeSeries = [\<lparr>Label = ''up'', Host = ''h2'', Tags = Map.empty, DataPoints = []\<rparr>,
                        \<lparr>Label = ''up'', Host = ''h1'', Tags = Map.empty, DataPoints = []\<rparr>],
         ErrType = '''', ErrMessage = ''''\<rparr>
        \<lparr>Start = 100, End = 110, Step = 5, Query = ''up''\<rparr> =
     Inr \<lparr>Data = \<lparr>Result =
            [\<lparr>Metric = [''__name__'' \<mapsto> ''up'', ''instance'' \<mapsto> ''h1''], Values = []\<rparr>,
             \<lparr>Metric = [''__name__'' \<mapsto> ''up'', ''instance'' \<mapsto> ''h2''], Values = []\<rparr>],
            ResultType = ''matrix''\<rparr>, Status_resp = ''success''\<rparr>"
proof -
  let ?q = "\<lparr>Start = 100, End = 110, Step = 5, Query = ''up''\<rparr>"
  let ?bad = "\<lparr>TimeSeries = [], ErrType = ''QuerySyntaxError'', ErrMessage = ''bad query''\<rparr>"
  let ?ok = "\<lparr>TimeSeries = [\<lparr>Label = ''up'', Host = ''h2'', Tags = Map.empty, DataPoints = []\<rparr>,
                        \<lparr>Label = ''up'', Host = ''h1'', Tags = Map.empty, DataPoints = []\<rparr>],
         ErrType = '''', ErrMessage = ''''\<rparr>"
  let ?f = "\<lambda>v::real. ''v''"
  have e: "ErrType ?bad \<noteq> []" "ErrMessage ?bad = ''bad query''" "ErrType ?ok = []" by simp_all
  have unsorted: "convertFromWavefront_result ?f ?ok ?q =
      [\<lparr>Metric = [''__name__'' \<mapsto> ''up'', ''instance'' \<mapsto> ''h2''], Values = []\<rparr>,
       \<lparr>Metric = [''__name__'' \<mapsto> ''up'', ''instance'' \<mapsto> ''h1''], Values = []\<rparr>]"
    by (simp add: convertFromWavefront_result_def extractPromQLMetric_def extractPromQLData_def)
  have run: "shellInsertionSort Len Less Swap
      (initialize \<lparr>timeSeries = convertFromWavefront_result ?f ?ok ?q, metricKeyValues = []\<rparr>) =
     \<lparr>timeSeries = [\<lparr>Metric = [''__name__'' \<mapsto> ''up'', ''instance'' \<mapsto> ''h1''], Values = []\<rparr>,
                    \<lparr>Metric = [''__name__'' \<mapsto> ''up'', ''instance'' \<mapsto> ''h2''], Values = []\<rparr>],
      metricKeyValues = [[''__name__'', ''up'', ''instance'', ''h1''],
                         [''__name__'', ''up'', ''instance'', ''h2'']]\<rparr>"
    unfolding unsorted
    by (simp add: sort_eval metricMapToSlice_def metricMapToSlice_from_def map_index_def)
  have c: "sort_contract shellInsertionSort Len Less Swap
      (initialize \<lparr>timeSeries = convertFromWavefront_result ?f ?ok ?q, metricKeyValues = []\<rparr>)"
    by (rule shellInsertionSort_keeps_contract [OF aligned_initialize])
  from convertFromWavefront_all_or_nothing [of shellInsertionSort ?f ?bad ?q] e
  have bad: "convertFromWavefront shellInsertionSort ?f ?bad ?q =
      Inl \<lparr>Status = ''error'', ErrorType = ''bad_data'', Err = ''bad query''\<rparr>"
    by simp
  from convertFromWavefront_all_or_nothing [of shellInsertionSort ?f ?ok ?q] e(3) c
  have "\<exists>res. convertFromWavefront shellInsertionSort ?f ?ok ?q = Inr res \<and>
      Status_resp res = ''success'' \<and> ResultType (Data res) = ''matrix'' \<and>
      length (Result (Data res)) = length (TimeSeries ?ok)"
    by blast
  then have ok: "\<exists>res. convertFromWavefront shellInsertionSort ?f ?ok ?q = Inr res \<and>
      Status_resp res = ''success'' \<and> ResultType (Data res) = ''matrix'' \<and>
      length (Result (Data res)) = 2"
    by (simp add: numeral_2_eq_2)
  have out: "convertFromWavefront shellInsertionSort ?f ?ok ?q =
     Inr \<lparr>Data = \<lparr>Result =
            [\<lparr>Metric = [''__name__'' \<mapsto> ''up'', ''instance'' \<mapsto> ''h1''], Values = []\<rparr>,
             \<lparr>Metric = [''__name__'' \<mapsto> ''up'', ''instance'' \<mapsto> ''h2''], Values = []\<rparr>],
            ResultType = ''matrix''\<rparr>, Status_resp = ''success''\<rparr>"
    unfolding convertFromWavefront_def sortTimeSeriesInPlace_def Let_def run by simp
  from e bad c ok out show ?thesis by blast
qed

end
